theory Spec2Isabelle
  imports Complex_Main "HOL-Library.Multiset"
begin

section \<open>The data of the line mappers\<close>

text \<open>
  The two mappers of \<^verbatim>\<open>shared/jsonl_utils.py\<close> and \<^verbatim>\<open>shared/jsonl_utils_parallel.py\<close>
  read the records of a JSONL file, call a transform \<^verbatim>\<open>map_func\<close> on each, write the
  outputs to a destination file and the records the transform failed on to an error file.

  A record is a value of an arbitrary type \<open>'r\<close>: the mappers never look inside one, they
  pass it to \<^verbatim>\<open>map_func\<close> and to \<^verbatim>\<open>json.dumps\<close>. The serialiser is the parameter
  \<open>dumps\<close> of every function below; records are JSON values (the input ones come from
  \<^verbatim>\<open>json.loads\<close>), on which \<^verbatim>\<open>json.dumps\<close> returns a string.

  One call \<^verbatim>\<open>map_func(nxt)\<close> has one of four outcomes. It returns \<^verbatim>\<open>None\<close> or a
  record: \<open>Returned\<close>. It returns a value that is no JSON value, on which
  \<^verbatim>\<open>json.dumps\<close> raises \<^verbatim>\<open>TypeError\<close>: \<open>Returned_unserialisable\<close>. It raises an
  exception of class \<^verbatim>\<open>Exception\<close>, the class both mappers name in their
  \<^verbatim>\<open>except\<close> clause: \<open>Raised\<close>. Or it raises an exception that is not of that class
  (\<^verbatim>\<open>KeyboardInterrupt\<close>, \<^verbatim>\<open>SystemExit\<close>, any other class derived from
  \<^verbatim>\<open>BaseException\<close> only): \<open>Escaped\<close>. The strings are the exceptions' messages. The
  transform is a function: it does not change the record it is given.

  The source file is the list of the records its lines parse to, in file order; the
  three paths name three different files, which accept every write. Text is text: the
  encodings the files are opened with are not modelled, nor are the log lines.
\<close>

datatype 'r outcome =
    Returned "'r option"
  | Returned_unserialisable
  | Raised string
  | Escaped string

text \<open>
  A record is counted as an error when the \<^verbatim>\<open>try\<close> block of the sequential mapper
  raises an exception of class \<^verbatim>\<open>Exception\<close>: in the transform, or in
  \<^verbatim>\<open>json.dumps\<close> of what the transform returned. It is counted as a success when the
  transform returns \<^verbatim>\<open>None\<close> or a record.
\<close>

fun is_error :: "'r outcome \<Rightarrow> bool" where
  "is_error (Raised e) = True"
| "is_error Returned_unserialisable = True"
| "is_error (Returned v) = False"
| "is_error (Escaped e) = False"

fun is_success :: "'r outcome \<Rightarrow> bool" where
  "is_success (Returned v) = True"
| "is_success Returned_unserialisable = False"
| "is_success (Raised e) = False"
| "is_success (Escaped e) = False"

fun is_Escaped :: "'r outcome \<Rightarrow> bool" where
  "is_Escaped (Escaped e) = True"
| "is_Escaped (Returned v) = False"
| "is_Escaped Returned_unserialisable = False"
| "is_Escaped (Raised e) = False"

text \<open>
  A text file is its content. \<^verbatim>\<open>write\<close> appends to it; opening with mode \<^verbatim>\<open>"w"\<close>
  truncates the file, opening with mode \<^verbatim>\<open>"a"\<close> keeps what it holds.
\<close>

definition nl :: string where
  "nl = [CHR 0x0A]"

definition file_write :: "string \<Rightarrow> string \<Rightarrow> string" where
  "file_write f s = f @ s"

datatype mode = W | A

fun open_file :: "mode \<Rightarrow> string \<Rightarrow> string" where
  "open_file W prior = []"
| "open_file A prior = prior"

text \<open>
  \<^verbatim>\<open>get_error_file\<close>: the argument is \<open>Some prior\<close> for a caller-supplied path whose file
  holds \<open>prior\<close>, and \<open>None\<close> when no path is given; then the error file is a fresh
  temporary file.
\<close>

definition get_error_file :: "string option \<Rightarrow> string" where
  "get_error_file error_file_path =
     (case error_file_path of
        Some prior \<Rightarrow> open_file A prior
      | None \<Rightarrow> [])"

text \<open>
  The exceptions a mapper ends with: the circuit breaker
  (\<^verbatim>\<open>ValueError("Terminating after ... errors")\<close> in the sequential mapper,
  \<^verbatim>\<open>Exception("Too many errors. See log for details")\<close> in the parallel one), the
  \<^verbatim>\<open>ValueError\<close> of \<^verbatim>\<open>min\<close> on an empty list, an exception of the transform that no
  \<^verbatim>\<open>except\<close> clause catches, and the \<^verbatim>\<open>TypeError\<close> of a call of \<^verbatim>\<open>json.dumps\<close> that
  no \<^verbatim>\<open>try\<close> block surrounds.
\<close>

datatype error = TooManyErrors | MinEmptySequence | Propagated string | DumpsError

record files =
  out_file :: string
  err_file :: string

section \<open>The sequential mapper\<close>

record line_state = files +
  successful_lines :: int
  error_lines :: int
  current_line :: int

text \<open>
  The body of the \<^verbatim>\<open>for\<close> loop up to \<^verbatim>\<open>current_line += 1\<close>. The \<^verbatim>\<open>try\<close> block
  holds the call of the transform, \<^verbatim>\<open>json.dumps\<close> of its output and the two writes; an
  exception of class \<^verbatim>\<open>Exception\<close> in it sends the input record to the error file,
  without a line terminator. Any other exception leaves the function.
\<close>

definition line_map_body ::
  "('r \<Rightarrow> 'r outcome) \<Rightarrow> ('r \<Rightarrow> string) \<Rightarrow> 'r \<Rightarrow> line_state \<Rightarrow> error + line_state" where
  "line_map_body map_func dumps nxt s =
     (case map_func nxt of
        Returned (Some nxt_output) \<Rightarrow>
          Inr (s\<lparr>out_file := file_write (file_write (out_file s) (dumps nxt_output)) nl,
                 successful_lines := successful_lines s + 1,
                 current_line := current_line s + 1\<rparr>)
      | Returned None \<Rightarrow>
          Inr (s\<lparr>successful_lines := successful_lines s + 1,
                 current_line := current_line s + 1\<rparr>)
      | Returned_unserialisable \<Rightarrow>
          Inr (s\<lparr>err_file := file_write (err_file s) (dumps nxt),
                 error_lines := error_lines s + 1,
                 current_line := current_line s + 1\<rparr>)
      | Raised e \<Rightarrow>
          Inr (s\<lparr>err_file := file_write (err_file s) (dumps nxt),
                 error_lines := error_lines s + 1,
                 current_line := current_line s + 1\<rparr>)
      | Escaped e \<Rightarrow> Inl (Propagated e))"

text \<open>
  The loop: after each record the breaker is checked. A \<^verbatim>\<open>raise\<close> leaves the loop with
  the state reached.
\<close>

fun line_map_loop ::
  "('r \<Rightarrow> 'r outcome) \<Rightarrow> ('r \<Rightarrow> string) \<Rightarrow> int \<Rightarrow> 'r list \<Rightarrow> line_state
     \<Rightarrow> error option \<times> line_state" where
  "line_map_loop map_func dumps max_errors [] s = (None, s)"
| "line_map_loop map_func dumps max_errors (nxt # rest) s =
     (case line_map_body map_func dumps nxt s of
        Inl e \<Rightarrow> (Some e, s)
      | Inr s' \<Rightarrow>
          if max_errors > 0 \<and> error_lines s' > max_errors then (Some TooManyErrors, s')
          else line_map_loop map_func dumps max_errors rest s')"

text \<open>
  \<^verbatim>\<open>line_map\<close>: \<open>dest_file\<close> is what the destination file holds before the run. The result
  is what the call returns or raises, and the state when the files are closed.
\<close>

definition line_map ::
  "('r \<Rightarrow> 'r outcome) \<Rightarrow> ('r \<Rightarrow> string) \<Rightarrow> int \<Rightarrow> string \<Rightarrow> string option \<Rightarrow> 'r list
     \<Rightarrow> (error + int \<times> int) \<times> line_state" where
  "line_map map_func dumps max_errors dest_file error_file source_file =
     (case line_map_loop map_func dumps max_errors source_file
             \<lparr>out_file = open_file W dest_file, err_file = get_error_file error_file,
              successful_lines = 0, error_lines = 0, current_line = 0\<rparr> of
        (Some e, s) \<Rightarrow> (Inl e, s)
      | (None, s) \<Rightarrow> (Inr (successful_lines s, error_lines s), s))"

section \<open>The parallel mapper\<close>

datatype ItemState = Success | Failure

text \<open>
  What the field \<^verbatim>\<open>result\<close> holds: \<^verbatim>\<open>None\<close>, a record, or a value that is no JSON
  value.
\<close>

datatype 'r payload = PyNone | Json 'r | Unserialisable

record 'r MapResult =
  state :: ItemState
  time :: real
  result :: "'r payload"

text \<open>
  \<^verbatim>\<open>_map_wrapper\<close>: the two readings of the clock, \<^verbatim>\<open>start\<close> and \<^verbatim>\<open>stop\<close>, are
  arguments. The \<^verbatim>\<open>try\<close> block holds the call of the transform only, and
  \<^verbatim>\<open>except Exception\<close> catches what is of that class; any other exception leaves the
  adapter.
\<close>

definition map_wrapper ::
  "('r \<Rightarrow> 'r outcome) \<Rightarrow> real \<times> real \<Rightarrow> 'r \<Rightarrow> error + 'r MapResult" where
  "map_wrapper map_func clock item =
     (case map_func item of
        Returned None \<Rightarrow>
          Inr \<lparr>state = Success, time = snd clock - fst clock, result = PyNone\<rparr>
      | Returned (Some v) \<Rightarrow>
          Inr \<lparr>state = Success, time = snd clock - fst clock, result = Json v\<rparr>
      | Returned_unserialisable \<Rightarrow>
          Inr \<lparr>state = Success, time = snd clock - fst clock, result = Unserialisable\<rparr>
      | Raised e \<Rightarrow>
          Inr \<lparr>state = Failure, time = snd clock - fst clock, result = Json item\<rparr>
      | Escaped e \<Rightarrow> Inl (Propagated e))"

text \<open>
  \<^verbatim>\<open>json.dumps\<close> of what a result field holds: \<^verbatim>\<open>None\<close> is serialised as
  \<^verbatim>\<open>null\<close>, and on a value that is no JSON value the call raises.
\<close>

definition dumps_payload :: "('r \<Rightarrow> string) \<Rightarrow> 'r payload \<Rightarrow> string option" where
  "dumps_payload dumps v =
     (case v of PyNone \<Rightarrow> Some ''null'' | Json r \<Rightarrow> Some (dumps r) | Unserialisable \<Rightarrow> None)"

record par_state = files +
  n_errors :: int
  all_times :: "real list"

text \<open>
  The collector: the \<^verbatim>\<open>for r in result\<close> loop over what the pool delivers, a result
  or the exception that left the adapter, which the pool raises again in the collector.
  No \<^verbatim>\<open>try\<close> block surrounds the calls of \<^verbatim>\<open>json.dumps\<close> here.
\<close>

fun collect ::
  "('r \<Rightarrow> string) \<Rightarrow> int \<Rightarrow> (error + 'r MapResult) list \<Rightarrow> par_state
     \<Rightarrow> error option \<times> par_state" where
  "collect dumps n_errors_max [] s = (None, s)"
| "collect dumps n_errors_max (Inl e # rest) s = (Some e, s)"
| "collect dumps n_errors_max (Inr r # rest) s =
     (let s1 = s\<lparr>all_times := all_times s @ [time r]\<rparr> in
      if state r = Success then
        (if result r \<noteq> PyNone then
           (case dumps_payload dumps (result r) of
              None \<Rightarrow> (Some DumpsError, s1)
            | Some nxt_output \<Rightarrow>
                collect dumps n_errors_max rest
                  (s1\<lparr>out_file := file_write (file_write (out_file s1) nxt_output) nl\<rparr>))
         else collect dumps n_errors_max rest s1)
      else
        (case dumps_payload dumps (result r) of
           None \<Rightarrow> (Some DumpsError, s1)
         | Some nxt_err \<Rightarrow>
             (let s2 = s1\<lparr>err_file := file_write (file_write (err_file s1) nxt_err) nl,
                           n_errors := n_errors s1 + 1\<rparr> in
              if n_errors s2 > n_errors_max then (Some TooManyErrors, s2)
              else collect dumps n_errors_max rest s2)))"

text \<open>
  The three log lines after the loop: \<^verbatim>\<open>min(all_times)\<close> is evaluated first and raises
  \<^verbatim>\<open>ValueError\<close> on an empty list; otherwise the minimum, the mean and the maximum are
  logged.
\<close>

definition time_report :: "real list \<Rightarrow> error + real \<times> real \<times> real" where
  "time_report ts =
     (if ts = [] then Inl MinEmptySequence
      else Inr (fold min (tl ts) (hd ts), sum_list ts / real (length ts), fold max (tl ts) (hd ts)))"

text \<open>
  What the pool delivers: record number \<open>i\<close> of the source goes through the adapter with
  the clock readings \<open>clock i\<close>. With \<^verbatim>\<open>return_as="generator"\<close> the pool delivers in
  the order of submission, and an exception that left the adapter is raised when the
  collector comes to that item. \<^verbatim>\<open>n_worker_tasks\<close> is the size of the pool: it decides
  when and where an item runs, not what the adapter returns for it. What holds for any
  order of delivery is stated on \<open>collect\<close>, for any permutation of what the pool
  delivers.
\<close>

definition pool_results ::
  "('r \<Rightarrow> 'r outcome) \<Rightarrow> (nat \<Rightarrow> real \<times> real) \<Rightarrow> 'r list \<Rightarrow> (error + 'r MapResult) list" where
  "pool_results map_func clock source_file =
     map (\<lambda>(i, x). map_wrapper map_func (clock i) x) (enumerate 0 source_file)"

text \<open>
  \<^verbatim>\<open>line_map_parallel\<close>: the function has no \<^verbatim>\<open>return\<close> statement, so a call that
  completes evaluates to \<^verbatim>\<open>None\<close>. The result type leaves room for the pair of counts
  that \<open>line_map\<close> returns, so that the two can be compared.
\<close>

definition line_map_parallel ::
  "('r \<Rightarrow> 'r outcome) \<Rightarrow> ('r \<Rightarrow> string) \<Rightarrow> int \<Rightarrow> (nat \<Rightarrow> real \<times> real) \<Rightarrow> string
     \<Rightarrow> string option \<Rightarrow> 'r list \<Rightarrow> (error + (int \<times> int) option) \<times> par_state" where
  "line_map_parallel map_func dumps n_errors_max clock dest_file error_file source_file =
     (case collect dumps n_errors_max (pool_results map_func clock source_file)
             \<lparr>out_file = open_file W dest_file, err_file = get_error_file error_file,
              n_errors = 0, all_times = []\<rparr> of
        (Some e, s) \<Rightarrow> (Inl e, s)
      | (None, s) \<Rightarrow>
          (case time_report (all_times s) of
             Inl e \<Rightarrow> (Inl e, s)
           | Inr report \<Rightarrow> (Inr None, s)))"

section \<open>Lines, counts and the scenario of the specification\<close>

text \<open>The lines of a text, as reading it back line by line gives them.\<close>

fun lines_of :: "string \<Rightarrow> string list" where
  "lines_of [] = []"
| "lines_of (c # cs) =
     (if c = CHR 0x0A then [] # lines_of cs
      else (case lines_of cs of [] \<Rightarrow> [[c]] | l # ls \<Rightarrow> (c # l) # ls))"

text \<open>Line-delimited JSON: each record serialised and followed by a line terminator.\<close>

definition jsonl :: "('r \<Rightarrow> string) \<Rightarrow> 'r list \<Rightarrow> string" where
  "jsonl dumps rs = concat (map (\<lambda>r. dumps r @ nl) rs)"

text \<open>
  The outputs of the transform on a list of records, the records counted as errors and
  those counted as successes.
\<close>

fun outputs :: "('r \<Rightarrow> 'r outcome) \<Rightarrow> 'r list \<Rightarrow> 'r list" where
  "outputs map_func [] = []"
| "outputs map_func (x # xs) =
     (case map_func x of
        Returned (Some y) \<Rightarrow> y # outputs map_func xs
      | _ \<Rightarrow> outputs map_func xs)"

definition failed :: "('r \<Rightarrow> 'r outcome) \<Rightarrow> 'r list \<Rightarrow> 'r list" where
  "failed map_func xs = filter (\<lambda>x. is_error (map_func x)) xs"

definition succeeded :: "('r \<Rightarrow> 'r outcome) \<Rightarrow> 'r list \<Rightarrow> 'r list" where
  "succeeded map_func xs = filter (\<lambda>x. is_success (map_func x)) xs"

text \<open>
  The records a run can reach: those before the first record on which the transform
  raises an exception that is not of class \<^verbatim>\<open>Exception\<close>, and all of them when there
  is no such record. \<open>first_escape\<close> is the message of that exception.
\<close>

definition reached :: "('r \<Rightarrow> 'r outcome) \<Rightarrow> 'r list \<Rightarrow> 'r list" where
  "reached map_func xs = takeWhile (\<lambda>x. \<not> is_Escaped (map_func x)) xs"

fun first_escape :: "('r \<Rightarrow> 'r outcome) \<Rightarrow> 'r list \<Rightarrow> string option" where
  "first_escape map_func [] = None"
| "first_escape map_func (x # xs) =
     (case map_func x of Escaped e \<Rightarrow> Some e | _ \<Rightarrow> first_escape map_func xs)"

text \<open>
  The scenario of the specification: records whose fields hold an integer or a string,
  and the transform the specification describes as "double field a, fail if not numeric".
  \<open>json_dumps\<close> is \<^verbatim>\<open>json.dumps\<close> of the standard library, with its default separators,
  on such records; the strings of the scenario need no escaping, and none is modelled.
\<close>

datatype json = JInt int | JStr string

type_synonym jrecord = "(string \<times> json) list"

fun digits :: "nat \<Rightarrow> string" where
  "digits n =
     (if n < 10 then [''0123456789'' ! n]
      else digits (n div 10) @ [''0123456789'' ! (n mod 10)])"

fun dumps_value :: "json \<Rightarrow> string" where
  \<open>dumps_value (JInt i) = (if i < 0 then ''-'' @ digits (nat (- i)) else digits (nat i))\<close>
| \<open>dumps_value (JStr s) = ''"'' @ s @ ''"''\<close>

fun join :: "string \<Rightarrow> string list \<Rightarrow> string" where
  "join sep [] = []"
| "join sep [x] = x"
| "join sep (x # y # ys) = x @ sep @ join sep (y # ys)"

definition json_dumps :: "jrecord \<Rightarrow> string" where
  \<open>json_dumps r =
     ''{'' @ join '', '' (map (\<lambda>(k, v). ''"'' @ k @ ''": '' @ dumps_value v) r) @ ''}''\<close>

definition double_a :: "jrecord \<Rightarrow> jrecord outcome" where
  "double_a r =
     (case map_of r ''a'' of
        Some (JInt n) \<Rightarrow> Returned (Some (map (\<lambda>(k, v). if k = ''a'' then (k, JInt (2 * n)) else (k, v)) r))
      | Some (JStr s) \<Rightarrow> Raised ''not numeric''
      | None \<Rightarrow> Raised ''no field a'')"

definition scenario_input :: "jrecord list" where
  "scenario_input = [[(''a'', JInt 1)], [(''a'', JInt 2)], [(''a'', JStr ''bad'')]]"

text \<open>A clock for the examples: item \<open>i\<close> starts at time \<open>i\<close> and takes one second.\<close>

definition unit_clock :: "nat \<Rightarrow> real \<times> real" where
  "unit_clock i = (real i, real i + 1)"

text \<open>The record on which the transform of the scenario fails.\<close>

definition bad_record :: jrecord where
  "bad_record = [(''a'', JStr ''bad'')]"

text \<open>
  Two transforms for the examples: one returns, for every record, a value that is no
  JSON value; the other is interrupted from the keyboard on every record.
\<close>

definition returns_a_set :: "jrecord \<Rightarrow> jrecord outcome" where
  "returns_a_set r = Returned_unserialisable"


text \<open>
  The states in which the two loops start, and what a list of results holds: the
  outputs to write, the payloads of the failures, and the error lines the collector writes
  for them.
\<close>

definition line_start :: "string \<Rightarrow> string option \<Rightarrow> line_state" where
  "line_start dest ef = \<lparr>out_file = open_file W dest, err_file = get_error_file ef,
     successful_lines = 0, error_lines = 0, current_line = 0\<rparr>"

definition par_start :: "string \<Rightarrow> string option \<Rightarrow> par_state" where
  "par_start dest ef = \<lparr>out_file = open_file W dest, err_file = get_error_file ef,
     n_errors = 0, all_times = []\<rparr>"

fun output_of :: "'r MapResult \<Rightarrow> 'r list" where
  "output_of r = (case result r of Json y \<Rightarrow> if state r = Success then [y] else [] | _ \<Rightarrow> [])"

definition res_outputs :: "'r MapResult list \<Rightarrow> 'r list" where
  "res_outputs rs = concat (map output_of rs)"

definition res_errors :: "'r MapResult list \<Rightarrow> 'r payload list" where
  "res_errors rs = map result (filter (\<lambda>r. state r \<noteq> Success) rs)"

definition payload_text :: "('r \<Rightarrow> string) \<Rightarrow> 'r payload \<Rightarrow> string" where
  "payload_text dumps v = (case dumps_payload dumps v of Some t \<Rightarrow> t | None \<Rightarrow> [])"

definition error_lines_of :: "('r \<Rightarrow> string) \<Rightarrow> 'r payload list \<Rightarrow> string" where
  "error_lines_of dumps vs = concat (map (\<lambda>v. payload_text dumps v @ nl) vs)"

text \<open>
  A transform is plain on a list of records when, on each, it returns \<^verbatim>\<open>None\<close> or a
  record, or raises an exception of class \<^verbatim>\<open>Exception\<close>. A list of results is
  serialisable when none holds a value that is no JSON value.
\<close>

fun is_plain :: "'r outcome \<Rightarrow> bool" where
  "is_plain (Returned v) = True"
| "is_plain (Raised e) = True"
| "is_plain Returned_unserialisable = False"
| "is_plain (Escaped e) = False"

definition plain :: "('r \<Rightarrow> 'r outcome) \<Rightarrow> 'r list \<Rightarrow> bool" where
  "plain map_func xs = list_all (\<lambda>x. is_plain (map_func x)) xs"

definition serialisable :: "'r MapResult list \<Rightarrow> bool" where
  "serialisable rs = list_all (\<lambda>r. result r \<noteq> Unserialisable) rs"

section \<open>The loop of the sequential mapper\<close>

text \<open>
  What one pass through the body does to each field, and what the loop has done when it
  stops: it has processed a prefix of the records it can reach, all of them unless the
  breaker fired.
\<close>

lemma body_escapes:
  "line_map_body f d x s = Inl e \<longleftrightarrow> (\<exists>msg. f x = Escaped msg \<and> e = Propagated msg)"
  by (auto simp: line_map_body_def split: outcome.splits option.splits)

lemma body_fields:
  assumes "line_map_body f d x s = Inr s'"
  shows "out_file s' = out_file s @ jsonl d (outputs f [x])"
    and "err_file s' = err_file s @ concat (map d (failed f [x]))"
    and "successful_lines s' = successful_lines s + int (length (succeeded f [x]))"
    and "error_lines s' = error_lines s + int (length (failed f [x]))"
    and "current_line s' = current_line s + 1"
    and "\<not> is_Escaped (f x)"
  using assms
  by (auto simp: line_map_body_def file_write_def jsonl_def failed_def succeeded_def
      split: outcome.splits option.splits)

lemma outputs_append: "outputs f (xs @ ys) = outputs f xs @ outputs f ys"
  by (induction xs) (simp_all split: outcome.splits option.splits)

lemma jsonl_append: "jsonl d (xs @ ys) = jsonl d xs @ jsonl d ys"
  by (simp add: jsonl_def)

lemma failed_Cons: "failed f (x # xs) = failed f [x] @ failed f xs"
  by (simp add: failed_def)

lemma succeeded_Cons: "succeeded f (x # xs) = succeeded f [x] @ succeeded f xs"
  by (simp add: succeeded_def)

lemma outputs_Cons: "outputs f (x # xs) = outputs f [x] @ outputs f xs"
  using outputs_append [of f "[x]" xs] by simp

lemma reached_Nil: "reached f [] = []"
  by (simp add: reached_def)

lemma reached_Cons:
  "reached f (x # xs) = (if is_Escaped (f x) then [] else x # reached f xs)"
  by (simp add: reached_def)

lemma reached_all: "reached f xs = xs \<longleftrightarrow> (\<forall>x\<in>set xs. \<not> is_Escaped (f x))"
  by (simp add: reached_def)

lemma reached_take: "reached f xs = take (length (reached f xs)) xs"
  unfolding reached_def by (rule takeWhile_eq_take)

lemma reached_length: "length (reached f xs) \<le> length xs"
  by (simp add: reached_def length_takeWhile_le)

lemma first_escape_None: "first_escape f xs = None \<longleftrightarrow> reached f xs = xs"
  by (induction xs) (auto simp: reached_Nil reached_Cons split: outcome.splits)


lemma loop_run:
  "line_map_loop f d m xs s = (r, s') \<Longrightarrow>
   \<exists>n. n \<le> length (reached f xs) \<and>
     out_file s' = out_file s @ jsonl d (outputs f (take n xs)) \<and>
     err_file s' = err_file s @ concat (map d (failed f (take n xs))) \<and>
     successful_lines s' = successful_lines s + int (length (succeeded f (take n xs))) \<and>
     error_lines s' = error_lines s + int (length (failed f (take n xs))) \<and>
     current_line s' = current_line s + int n \<and>
     (r \<noteq> Some TooManyErrors \<longrightarrow> n = length (reached f xs)) \<and>
     (r = Some TooManyErrors \<longrightarrow> 0 < n \<and> 0 < m \<and>
        (error_lines s \<le> m \<longrightarrow> is_error (f (xs ! (n - 1)))))"
proof (induction xs arbitrary: s)
  case Nil
  then show ?case by (simp add: jsonl_def failed_def succeeded_def reached_def)
next
  case (Cons x xs)
  show ?case
  proof (cases "line_map_body f d x s")
    case (Inl e)
    then have esc: "is_Escaped (f x)" by (auto simp: body_escapes)
    from Inl Cons.prems have "s' = s" and "r = Some e" by simp_all
    moreover from Inl have "e \<noteq> TooManyErrors" by (auto simp: body_escapes)
    ultimately show ?thesis
      using esc by (intro exI [of _ 0]) (simp add: reached_Cons jsonl_def failed_def succeeded_def)
  next
    case (Inr s1)
    note b = body_fields [OF Inr]
    show ?thesis
    proof (cases "m > 0 \<and> error_lines s1 > m")
      case True
      with Cons.prems Inr have s': "s' = s1" and r: "r = Some TooManyErrors" by simp_all
      have raised: "error_lines s \<le> m \<Longrightarrow> is_error (f x)"
        using True b(4) by (auto simp: failed_def split: if_splits)
      show ?thesis
        using raised True b by (intro exI [of _ 1]) (simp add: s' r reached_Cons)
    next
      case False
      with Cons.prems Inr have "line_map_loop f d m xs s1 = (r, s')" by auto
      from Cons.IH [OF this] obtain n where n: "n \<le> length (reached f xs)"
        "out_file s' = out_file s1 @ jsonl d (outputs f (take n xs))"
        "err_file s' = err_file s1 @ concat (map d (failed f (take n xs)))"
        "successful_lines s' = successful_lines s1 + int (length (succeeded f (take n xs)))"
        "error_lines s' = error_lines s1 + int (length (failed f (take n xs)))"
        "current_line s' = current_line s1 + int n"
        "r \<noteq> Some TooManyErrors \<longrightarrow> n = length (reached f xs)"
        "r = Some TooManyErrors \<longrightarrow> 0 < n \<and> 0 < m \<and>
           (error_lines s1 \<le> m \<longrightarrow> is_error (f (xs ! (n - 1))))"
        by blast
      have le: "0 < m \<Longrightarrow> error_lines s1 \<le> m"
        using False by auto
      show ?thesis
        using n le b
        by (intro exI [of _ "Suc n"])
          (auto simp: reached_Cons jsonl_append outputs_Cons [of f x "take n xs"]
            failed_Cons [of f x "take n xs"] succeeded_Cons [of f x "take n xs"]
            simp del: outputs.simps)
    qed
  qed
qed

lemma loop_result:
  "error_lines s \<le> m \<or> m \<le> 0 \<Longrightarrow>
   fst (line_map_loop f d m xs s) =
     (if 0 < m \<and> m < error_lines s + int (length (failed f (reached f xs)))
      then Some TooManyErrors
      else map_option Propagated (first_escape f xs))"
proof (induction xs arbitrary: s)
  case Nil
  then show ?case by (auto simp: failed_def reached_def)
next
  case (Cons x xs)
  show ?case
  proof (cases "line_map_body f d x s")
    case (Inl e)
    then obtain msg where "f x = Escaped msg" "e = Propagated msg"
      by (auto simp: body_escapes)
    with Inl Cons.prems show ?thesis
      by (auto simp: reached_Cons failed_def)
  next
    case (Inr s1)
    note b = body_fields [OF Inr]
    have fe: "first_escape f (x # xs) = first_escape f xs"
      using b(6) by (cases "f x") simp_all
    show ?thesis
    proof (cases "m > 0 \<and> error_lines s1 > m")
      case True
      then show ?thesis using Inr b
        by (auto simp: reached_Cons failed_def)
    next
      case False
      have "error_lines s1 \<le> m \<or> m \<le> 0" using False by auto
      from Cons.IH [OF this] False Inr b show ?thesis
        by (simp add: fe reached_Cons failed_Cons [of f x "reached f xs"] add.assoc
            del: first_escape.simps)
    qed
  qed
qed

lemma loop_abort_count:
  "fst (line_map_loop f d m xs s) = Some TooManyErrors \<Longrightarrow> error_lines s \<le> m \<Longrightarrow> 0 < m \<Longrightarrow>
   error_lines (snd (line_map_loop f d m xs s)) = m + 1"
proof (induction xs arbitrary: s)
  case Nil
  then show ?case by simp
next
  case (Cons x xs)
  show ?case
  proof (cases "line_map_body f d x s")
    case (Inl e)
    with Cons.prems show ?thesis by (auto simp: body_escapes)
  next
    case (Inr s1)
    note b = body_fields [OF Inr]
    show ?thesis
    proof (cases "m > 0 \<and> error_lines s1 > m")
      case True
      then show ?thesis using Cons.prems Inr b(4)
        by (auto simp: failed_def split: if_splits)
    next
      case False
      then have "error_lines s1 \<le> m" using Cons.prems by auto
      moreover have "fst (line_map_loop f d m xs s1) = Some TooManyErrors"
        using Cons.prems False Inr by simp
      ultimately show ?thesis using Cons.IH [of s1] False Cons.prems(3) Inr by simp
    qed
  qed
qed

lemma line_map_loop_eq:
  "line_map f d m dest ef src =
     (case line_map_loop f d m src (line_start dest ef) of
        (Some e, s) \<Rightarrow> (Inl e, s)
      | (None, s) \<Rightarrow> (Inr (successful_lines s, error_lines s), s))"
  by (simp add: line_map_def line_start_def)

lemma line_map_snd:
  "\<exists>n. n \<le> length (reached f src) \<and>
     out_file (snd (line_map f d m dest ef src)) = jsonl d (outputs f (take n src)) \<and>
     err_file (snd (line_map f d m dest ef src)) =
       get_error_file ef @ concat (map d (failed f (take n src))) \<and>
     successful_lines (snd (line_map f d m dest ef src)) = int (length (succeeded f (take n src))) \<and>
     error_lines (snd (line_map f d m dest ef src)) = int (length (failed f (take n src))) \<and>
     current_line (snd (line_map f d m dest ef src)) = int n \<and>
     (fst (line_map f d m dest ef src) \<noteq> Inl TooManyErrors \<longrightarrow> n = length (reached f src)) \<and>
     (fst (line_map f d m dest ef src) = Inl TooManyErrors \<longrightarrow>
        0 < n \<and> 0 < m \<and> is_error (f (src ! (n - 1))) \<and>
        error_lines (snd (line_map f d m dest ef src)) = m + 1)"
proof -
  obtain r s where rs: "line_map_loop f d m src (line_start dest ef) = (r, s)"
    by (cases "line_map_loop f d m src (line_start dest ef)")
  have fst_eq: "fst (line_map f d m dest ef src) = Inl TooManyErrors \<longleftrightarrow> r = Some TooManyErrors"
    by (auto simp: line_map_loop_eq rs split: option.splits)
  have snd_eq: "snd (line_map f d m dest ef src) = s"
    by (auto simp: line_map_loop_eq rs split: option.splits)
  have cnt: "r = Some TooManyErrors \<Longrightarrow> 0 < m \<Longrightarrow> error_lines s = m + 1"
    using loop_abort_count [of f d m src "line_start dest ef"] rs
    by (auto simp: line_start_def)
  from loop_run [OF rs] obtain n where n: "n \<le> length (reached f src)"
    "out_file s = out_file (line_start dest ef) @ jsonl d (outputs f (take n src))"
    "err_file s = err_file (line_start dest ef) @ concat (map d (failed f (take n src)))"
    "successful_lines s = successful_lines (line_start dest ef) + int (length (succeeded f (take n src)))"
    "error_lines s = error_lines (line_start dest ef) + int (length (failed f (take n src)))"
    "current_line s = current_line (line_start dest ef) + int n"
    "r \<noteq> Some TooManyErrors \<longrightarrow> n = length (reached f src)"
    "r = Some TooManyErrors \<longrightarrow> 0 < n \<and> 0 < m \<and>
       (error_lines (line_start dest ef) \<le> m \<longrightarrow> is_error (f (src ! (n - 1))))"
    by blast
  show ?thesis
    using n cnt by (intro exI [of _ n]) (auto simp: fst_eq snd_eq line_start_def)
qed

lemma line_map_fst:
  "fst (line_map f d m dest ef src) =
     (if 0 < m \<and> m < int (length (failed f (reached f src))) then Inl TooManyErrors
      else case first_escape f src of
             Some e \<Rightarrow> Inl (Propagated e)
           | None \<Rightarrow> Inr (int (length (succeeded f src)), int (length (failed f src))))"
proof -
  obtain r s where rs: "line_map_loop f d m src (line_start dest ef) = (r, s)"
    by (cases "line_map_loop f d m src (line_start dest ef)")
  have "error_lines (line_start dest ef) \<le> m \<or> m \<le> 0"
    by (auto simp: line_start_def)
  from loop_result [OF this, of f d src] rs
  have r: "r = (if 0 < m \<and> m < int (length (failed f (reached f src))) then Some TooManyErrors
                else map_option Propagated (first_escape f src))"
    by (simp add: line_start_def)
  from loop_run [OF rs] obtain n where n:
    "successful_lines s = int (length (succeeded f (take n src)))"
    "error_lines s = int (length (failed f (take n src)))"
    "r \<noteq> Some TooManyErrors \<longrightarrow> n = length (reached f src)"
    by (auto simp: line_start_def)
  have full: "first_escape f src = None \<Longrightarrow> reached f src = src"
    by (simp add: first_escape_None)
  show ?thesis
  proof (cases "0 < m \<and> m < int (length (failed f (reached f src)))")
    case True
    with r show ?thesis by (simp add: line_map_loop_eq rs)
  next
    case False
    show ?thesis
    proof (cases "first_escape f src")
      case None
      with r False have "r = None" by simp
      with n full [OF None] None False show ?thesis
        by (simp add: line_map_loop_eq rs)
    next
      case (Some e)
      with r False show ?thesis by (simp add: line_map_loop_eq rs)
    qed
  qed
qed

lemma line_map_not_aborted:
  assumes "fst (line_map f d m dest ef src) \<noteq> Inl TooManyErrors"
  shows "current_line (snd (line_map f d m dest ef src)) = int (length (reached f src))"
    and "error_lines (snd (line_map f d m dest ef src)) = int (length (failed f (reached f src)))"
    and "out_file (snd (line_map f d m dest ef src)) = jsonl d (outputs f (reached f src))"
    and "err_file (snd (line_map f d m dest ef src)) =
           get_error_file ef @ concat (map d (failed f (reached f src)))"
proof -
  from line_map_snd [of f src d m dest ef] obtain n where n:
    "error_lines (snd (line_map f d m dest ef src)) = int (length (failed f (take n src)))"
    "current_line (snd (line_map f d m dest ef src)) = int n"
    "out_file (snd (line_map f d m dest ef src)) = jsonl d (outputs f (take n src))"
    "err_file (snd (line_map f d m dest ef src)) =
       get_error_file ef @ concat (map d (failed f (take n src)))"
    "fst (line_map f d m dest ef src) \<noteq> Inl TooManyErrors \<longrightarrow> n = length (reached f src)"
    by blast
  from n(5) assms have "n = length (reached f src)" by simp
  with reached_take [of f src] have "take n src = reached f src" by simp
  with n \<open>n = length (reached f src)\<close>
  show "current_line (snd (line_map f d m dest ef src)) = int (length (reached f src))"
    and "error_lines (snd (line_map f d m dest ef src)) = int (length (failed f (reached f src)))"
    and "out_file (snd (line_map f d m dest ef src)) = jsonl d (outputs f (reached f src))"
    and "err_file (snd (line_map f d m dest ef src)) =
           get_error_file ef @ concat (map d (failed f (reached f src)))"
    by simp_all
qed


lemma lines_of_line: "CHR 0x0A \<notin> set l \<Longrightarrow> lines_of (l @ nl @ rest) = l # lines_of rest"
  by (induction l) (auto simp: nl_def)

lemma lines_of_jsonl:
  "\<forall>y\<in>set ys. CHR 0x0A \<notin> set (d y) \<Longrightarrow> lines_of (jsonl d ys) = map d ys"
proof (induction ys)
  case Nil
  then show ?case by (simp add: jsonl_def)
next
  case (Cons y ys)
  then have "lines_of (d y @ nl @ jsonl d ys) = d y # lines_of (jsonl d ys)"
    by (simp add: lines_of_line)
  with Cons show ?case by (simp add: jsonl_def)
qed

lemma lines_of_trailing:
  "xs \<noteq> [] \<Longrightarrow> last xs \<noteq> CHR 0x0A \<Longrightarrow> lines_of (xs @ nl) = lines_of xs"
proof (induction xs)
  case Nil
  then show ?case by simp
next
  case (Cons c cs)
  show ?case
  proof (cases "cs = []")
    case True
    with Cons.prems show ?thesis by (simp add: nl_def)
  next
    case False
    with Cons have "lines_of (cs @ nl) = lines_of cs" by simp
    then show ?thesis by simp
  qed
qed

lemma failed_none: "\<forall>x\<in>set xs. is_success (f x) \<Longrightarrow> failed f xs = []"
proof -
  assume a: "\<forall>x\<in>set xs. is_success (f x)"
  have "\<not> is_error (f x)" if "x \<in> set xs" for x
    using a that by (cases "f x") auto
  then show ?thesis by (simp add: failed_def)
qed

lemma succeeded_all: "\<forall>x\<in>set xs. is_success (f x) \<Longrightarrow> succeeded f xs = xs"
  by (simp add: succeeded_def)

lemma reached_success: "\<forall>x\<in>set xs. is_success (f x) \<Longrightarrow> reached f xs = xs"
proof -
  assume a: "\<forall>x\<in>set xs. is_success (f x)"
  have "\<not> is_Escaped (f x)" if "x \<in> set xs" for x
    using a that by (cases "f x") auto
  then show ?thesis by (simp add: reached_all)
qed

lemma outputs_all: "\<forall>x\<in>set xs. \<exists>y. f x = Returned (Some y) \<Longrightarrow> length (outputs f xs) = length xs"
  by (induction xs) auto

lemma outputs_none: "\<forall>x\<in>set xs. f x = Returned None \<Longrightarrow> outputs f xs = []"
  by (induction xs) auto

lemma line_map_no_failure:
  assumes "\<forall>x\<in>set src. is_success (f x)"
  shows "fst (line_map f d m dest ef src) = Inr (int (length src), 0)"
    and "out_file (snd (line_map f d m dest ef src)) = jsonl d (outputs f src)"
    and "err_file (snd (line_map f d m dest ef src)) = get_error_file ef"
proof -
  have re: "reached f src = src" using assms by (rule reached_success)
  then have fe: "first_escape f src = None" by (simp add: first_escape_None)
  show r: "fst (line_map f d m dest ef src) = Inr (int (length src), 0)"
    using assms by (simp add: line_map_fst failed_none succeeded_all re fe)
  then have "fst (line_map f d m dest ef src) \<noteq> Inl TooManyErrors" by simp
  from line_map_not_aborted(3,4) [OF this] assms
  show "out_file (snd (line_map f d m dest ef src)) = jsonl d (outputs f src)"
    and "err_file (snd (line_map f d m dest ef src)) = get_error_file ef"
    by (simp_all add: re failed_none)
qed

text \<open>The scenario, evaluated.\<close>

lemma scenario_failed: "failed double_a scenario_input = [[(''a'', JStr ''bad'')]]"
  by (simp add: failed_def scenario_input_def double_a_def)

lemma scenario_succeeded:
  "succeeded double_a scenario_input = [[(''a'', JInt 1)], [(''a'', JInt 2)]]"
  by (simp add: succeeded_def scenario_input_def double_a_def)

lemma scenario_reached: "reached double_a scenario_input = scenario_input"
  by (simp add: reached_def scenario_input_def double_a_def)

lemma scenario_no_escape: "first_escape double_a scenario_input = None"
  by (simp add: first_escape_None scenario_reached)

lemma scenario_length: "length scenario_input = 3"
  by (simp add: scenario_input_def)

lemma scenario_nonempty: "scenario_input \<noteq> []"
  by (simp add: scenario_input_def)

lemma scenario_outputs:
  "outputs double_a scenario_input = [[(''a'', JInt 2)], [(''a'', JInt 4)]]"
  by (simp add: scenario_input_def double_a_def)

lemma scenario_failed_bad: "failed double_a scenario_input = [bad_record]"
  by (simp add: scenario_failed bad_record_def)

lemma dumps_bad: \<open>json_dumps bad_record = ''{"a": "bad"}''\<close>
  by (simp add: json_dumps_def bad_record_def)

lemma dumps_int: \<open>json_dumps [(''a'', JInt 2)] = ''{"a": 2}''\<close> \<open>json_dumps [(''a'', JInt 4)] = ''{"a": 4}''\<close>
  by (simp_all add: json_dumps_def)

lemma dumps_no_newline:
  "\<forall>y\<in>set [[(''a'', JInt 2)], [(''a'', JInt 4)]]. CHR 0x0A \<notin> set (json_dumps y)"
  by (simp add: dumps_int)

lemma double_a_bad: "double_a bad_record = Raised ''not numeric''"
  by (simp add: double_a_def bad_record_def)

lemma double_a_int: "double_a [(''a'', JInt n)] = Returned (Some [(''a'', JInt (2 * n))])"
  by (simp add: double_a_def)

lemma scenario_line_map:
  "fst (line_map double_a json_dumps 1 dest ef scenario_input) = Inr (2, 1)"
  "out_file (snd (line_map double_a json_dumps 1 dest ef scenario_input)) =
     jsonl json_dumps [[(''a'', JInt 2)], [(''a'', JInt 4)]]"
  "err_file (snd (line_map double_a json_dumps 1 dest ef scenario_input)) =
     get_error_file ef @ json_dumps bad_record"
proof -
  show r: "fst (line_map double_a json_dumps 1 dest ef scenario_input) = Inr (2, 1)"
    by (simp add: line_map_fst scenario_failed scenario_succeeded scenario_reached
        scenario_no_escape)
  then have "fst (line_map double_a json_dumps 1 dest ef scenario_input) \<noteq> Inl TooManyErrors"
    by simp
  from line_map_not_aborted(3,4) [OF this]
  show "out_file (snd (line_map double_a json_dumps 1 dest ef scenario_input)) =
     jsonl json_dumps [[(''a'', JInt 2)], [(''a'', JInt 4)]]"
    and "err_file (snd (line_map double_a json_dumps 1 dest ef scenario_input)) =
     get_error_file ef @ json_dumps bad_record"
    by (simp_all add: scenario_reached scenario_outputs scenario_failed_bad)
qed

section \<open>The collector of the parallel mapper\<close>

text \<open>
  On results that can be serialised, the collector stops at the first failure that takes
  the error counter above the bound, and otherwise writes every result. It ends with an
  exception of the transform only when the pool delivers one. On a plain transform the
  pool delivers a result for every record, and the results carry the outputs and the
  failed records of the source.
\<close>

lemma collect_fst:
  "serialisable rs \<Longrightarrow>
   fst (collect d m (map Inr rs) s) =
     (if res_errors rs \<noteq> [] \<and> m < n_errors s + int (length (res_errors rs))
      then Some TooManyErrors else None)"
proof (induction rs arbitrary: s)
  case Nil
  then show ?case by (simp add: res_errors_def)
next
  case (Cons r rs)
  then have ser: "serialisable rs" and r: "result r \<noteq> Unserialisable"
    by (simp_all add: serialisable_def)
  show ?case
  proof (cases "state r = Success")
    case True
    with r show ?thesis
      by (cases "result r")
        (simp_all add: Cons.IH [OF ser] Let_def res_errors_def dumps_payload_def)
  next
    case False
    with r show ?thesis
      by (cases "result r")
        (auto simp: Cons.IH [OF ser] Let_def res_errors_def dumps_payload_def)
  qed
qed

lemma collect_snd:
  "serialisable rs \<Longrightarrow> fst (collect d m (map Inr rs) s) = None \<Longrightarrow>
   out_file (snd (collect d m (map Inr rs) s)) = out_file s @ jsonl d (res_outputs rs) \<and>
   err_file (snd (collect d m (map Inr rs) s)) = err_file s @ error_lines_of d (res_errors rs) \<and>
   n_errors (snd (collect d m (map Inr rs) s)) = n_errors s + int (length (res_errors rs)) \<and>
   all_times (snd (collect d m (map Inr rs) s)) = all_times s @ map time rs"
proof (induction rs arbitrary: s)
  case Nil
  then show ?case by (simp add: res_errors_def res_outputs_def jsonl_def error_lines_of_def)
next
  case (Cons r rs)
  then have ser: "serialisable rs" and r: "result r \<noteq> Unserialisable"
    by (simp_all add: serialisable_def)
  show ?case
  proof (cases "state r = Success")
    case True
    show ?thesis
    proof (cases "result r")
      case PyNone
      with True Cons.prems
      have "fst (collect d m (map Inr rs) (s\<lparr>all_times := all_times s @ [time r]\<rparr>)) = None"
        by (simp add: Let_def)
      from Cons.IH [OF ser this] True PyNone show ?thesis
        by (simp add: Let_def res_errors_def res_outputs_def)
    next
      case (Json y)
      with True Cons.prems
      have "fst (collect d m (map Inr rs) (s\<lparr>all_times := all_times s @ [time r],
               out_file := file_write (file_write (out_file s) (d y)) nl\<rparr>)) = None"
        by (simp add: Let_def dumps_payload_def)
      from Cons.IH [OF ser this] True Json show ?thesis
        by (simp add: Let_def res_errors_def res_outputs_def jsonl_def file_write_def
            dumps_payload_def)
    next
      case Unserialisable
      with r show ?thesis by simp
    qed
  next
    case False
    from r obtain t where t: "dumps_payload d (result r) = Some t"
      by (cases "result r") (simp_all add: dumps_payload_def)
    let ?s2 = "s\<lparr>all_times := all_times s @ [time r],
                 err_file := file_write (file_write (err_file s) t) nl,
                 n_errors := n_errors s + 1\<rparr>"
    from False Cons.prems t have "fst (collect d m (map Inr rs) ?s2) = None"
      by (simp add: Let_def split: if_splits)
    from Cons.IH [OF ser this] False Cons.prems t show ?thesis
      by (simp add: Let_def res_errors_def res_outputs_def error_lines_of_def file_write_def
          payload_text_def split: if_splits payload.splits)
  qed
qed


lemma res_errors_mset: "mset rs = mset rs' \<Longrightarrow> mset (res_errors rs) = mset (res_errors rs')"
  by (simp add: res_errors_def)

lemma mset_concat_map: "mset (concat (map g rs)) = (\<Sum>r\<in>#mset rs. mset (g r))"
  by (induction rs) simp_all

lemma res_outputs_mset: "mset rs = mset rs' \<Longrightarrow> mset (res_outputs rs) = mset (res_outputs rs')"
  by (simp add: res_outputs_def mset_concat_map)

lemma serialisable_mset: "mset rs = mset rs' \<Longrightarrow> serialisable rs = serialisable rs'"
  by (auto simp: serialisable_def list_all_iff dest: mset_eq_setD)

lemma all_results:
  assumes "\<forall>p\<in>set ps. \<exists>r. p = Inr r"
  shows "\<exists>rs. ps = map Inr rs"
proof -
  from assms have "ps = map Inr (map projr ps)" by (induction ps) auto
  then show ?thesis ..
qed

lemma wrapper_result:
  "\<not> is_Escaped (f x) \<Longrightarrow> \<exists>r. map_wrapper f c x = Inr r"
  by (cases "f x") (auto simp: map_wrapper_def split: option.splits)

lemma wrapper_escapes:
  "map_wrapper f c x = Inl e \<longleftrightarrow> (\<exists>msg. f x = Escaped msg \<and> e = Propagated msg)"
  by (auto simp: map_wrapper_def split: outcome.splits option.splits)

lemma pool_no_escape_offset:
  "\<forall>x\<in>set src. \<not> is_Escaped (f x) \<Longrightarrow>
   \<forall>p\<in>set (map (\<lambda>(i, x). map_wrapper f (clock i) x) (enumerate k src)). \<exists>r. p = Inr r"
proof (induction src arbitrary: k)
  case Nil
  then show ?case by simp
next
  case (Cons x xs)
  then have "\<exists>r. map_wrapper f (clock k) x = Inr r" by (simp add: wrapper_result)
  with Cons show ?case by simp
qed

lemma pool_no_escape:
  "\<forall>x\<in>set src. \<not> is_Escaped (f x) \<Longrightarrow> \<forall>p\<in>set (pool_results f clock src). \<exists>r. p = Inr r"
  unfolding pool_results_def by (rule pool_no_escape_offset)

lemma failed_Nil: "failed f [] = []"
  by (simp add: failed_def)

lemma wrapper_plain:
  assumes "is_plain (f x)"
  shows "\<exists>r. map_wrapper f c x = Inr r \<and> result r \<noteq> Unserialisable \<and>
     res_errors [r] = map Json (failed f [x]) \<and> res_outputs [r] = outputs f [x]"
proof (cases "f x")
  case (Returned v)
  then show ?thesis
    by (cases v) (simp_all add: res_errors_def res_outputs_def failed_def map_wrapper_def)
next
  case (Raised e)
  then show ?thesis
    by (simp add: res_errors_def res_outputs_def failed_def map_wrapper_def)
qed (use assms in simp_all)

lemma pool_offset:
  "plain f src \<Longrightarrow>
   \<exists>rs. map (\<lambda>(i, x). map_wrapper f (clock i) x) (enumerate k src) = map Inr rs \<and>
     serialisable rs \<and> res_errors rs = map Json (failed f src) \<and>
     res_outputs rs = outputs f src"
proof (induction src arbitrary: k)
  case Nil
  then show ?case by (simp add: serialisable_def res_errors_def res_outputs_def failed_def)
next
  case (Cons x xs)
  then have "plain f xs" and px: "is_plain (f x)" by (simp_all add: plain_def)
  from Cons.IH [OF this(1), of "Suc k"] obtain rs where rs:
    "map (\<lambda>(i, x). map_wrapper f (clock i) x) (enumerate (Suc k) xs) = map Inr rs"
    "serialisable rs" "res_errors rs = map Json (failed f xs)" "res_outputs rs = outputs f xs"
    by blast
  from wrapper_plain [of f x "clock k"] px obtain r where r:
    "map_wrapper f (clock k) x = Inr r"
    "result r \<noteq> Unserialisable"
    "res_errors [r] = map Json (failed f [x])"
    "res_outputs [r] = outputs f [x]"
    by blast
  have "res_errors (r # rs) = res_errors [r] @ res_errors rs"
    and "res_outputs (r # rs) = res_outputs [r] @ res_outputs rs"
    by (simp_all add: res_errors_def res_outputs_def)
  with r rs show ?case
    by (intro exI [of _ "r # rs"])
      (simp add: serialisable_def failed_Cons [of f x xs] outputs_Cons [of f x xs]
        del: outputs.simps)
qed

lemma plain_no_escape: "plain f src \<Longrightarrow> \<forall>x\<in>set src. \<not> is_Escaped (f x)"
proof
  fix x assume "plain f src" "x \<in> set src"
  then have "is_plain (f x)" by (simp add: plain_def list_all_iff)
  then show "\<not> is_Escaped (f x)" by (cases "f x") simp_all
qed

lemma pool_plain:
  assumes "plain f src"
  shows "\<exists>rs. pool_results f clock src = map Inr rs \<and>
     serialisable rs \<and> res_errors rs = map Json (failed f src) \<and>
     res_outputs rs = outputs f src"
  using pool_offset [OF assms, of clock 0] by (simp add: pool_results_def)

lemma pool_length: "length (pool_results f clock src) = length src"
  by (simp add: pool_results_def)

lemma line_map_parallel_collect_eq:
  "line_map_parallel f d m clock dest ef src =
     (case collect d m (pool_results f clock src) (par_start dest ef) of
        (Some e, s) \<Rightarrow> (Inl e, s)
      | (None, s) \<Rightarrow>
          (case time_report (all_times s) of
             Inl e \<Rightarrow> (Inl e, s)
           | Inr report \<Rightarrow> (Inr None, s)))"
  by (simp add: line_map_parallel_def par_start_def)

lemma line_map_parallel_snd:
  "snd (line_map_parallel f d m clock dest ef src) =
     snd (collect d m (pool_results f clock src) (par_start dest ef))"
  by (simp add: line_map_parallel_collect_eq split: prod.splits option.splits sum.splits)

lemma line_map_parallel_fst:
  assumes "plain f src"
  shows "fst (line_map_parallel f d m clock dest ef src) =
     (if failed f src \<noteq> [] \<and> m < int (length (failed f src)) then Inl TooManyErrors
      else if src = [] then Inl MinEmptySequence
      else Inr None)"
proof -
  from pool_plain [OF assms, of clock] obtain rs where p:
    "pool_results f clock src = map Inr rs" "serialisable rs"
    "res_errors rs = map Json (failed f src)" "res_outputs rs = outputs f src"
    by blast
  obtain e s where es: "collect d m (map Inr rs) (par_start dest ef) = (e, s)"
    by (cases "collect d m (map Inr rs) (par_start dest ef)")
  have e: "e = (if failed f src \<noteq> [] \<and> m < int (length (failed f src))
                then Some TooManyErrors else None)"
    using collect_fst [OF p(2), of d m "par_start dest ef"] es
    by (simp add: p(3) par_start_def)
  have "e = None \<Longrightarrow> all_times s = map time rs"
    using collect_snd [OF p(2), of d m "par_start dest ef"] es
    by (simp add: par_start_def)
  moreover have "length rs = length src"
    using pool_length [of f clock src] p(1) by simp
  ultimately have t: "e = None \<Longrightarrow> all_times s = [] \<longleftrightarrow> src = []"
    by auto
  show ?thesis
  proof (cases e)
    case None
    with e t show ?thesis
      by (auto simp: line_map_parallel_collect_eq p(1) es time_report_def failed_Nil
          split: if_splits)
  next
    case (Some err)
    with e have "failed f src \<noteq> [] \<and> m < int (length (failed f src))" and "err = TooManyErrors"
      by (simp_all split: if_splits)
    with Some show ?thesis
      by (simp add: line_map_parallel_collect_eq p(1) es)
  qed
qed

lemma line_map_parallel_plain_files:
  assumes "plain f src"
    and "fst (line_map_parallel f d m clock dest ef src) \<noteq> Inl TooManyErrors"
  shows "out_file (snd (line_map_parallel f d m clock dest ef src)) = jsonl d (outputs f src)"
    and "err_file (snd (line_map_parallel f d m clock dest ef src)) =
           get_error_file ef @ jsonl d (failed f src)"
proof -
  from pool_plain [OF assms(1), of clock] obtain rs where p:
    "pool_results f clock src = map Inr rs" "serialisable rs"
    "res_errors rs = map Json (failed f src)" "res_outputs rs = outputs f src"
    by blast
  from assms(2) line_map_parallel_fst [OF assms(1), of d m clock dest ef]
  have "\<not> (failed f src \<noteq> [] \<and> m < int (length (failed f src)))"
    by (auto split: if_splits)
  then have "fst (collect d m (map Inr rs) (par_start dest ef)) = None"
    using collect_fst [OF p(2), of d m "par_start dest ef"]
    by (simp add: p(3) par_start_def)
  from collect_snd [OF p(2) this]
  show "out_file (snd (line_map_parallel f d m clock dest ef src)) = jsonl d (outputs f src)"
    and "err_file (snd (line_map_parallel f d m clock dest ef src)) =
           get_error_file ef @ jsonl d (failed f src)"
    by (simp_all add: line_map_parallel_snd p par_start_def error_lines_of_def
        jsonl_def payload_text_def dumps_payload_def comp_def)
qed

lemma scenario_plain: "plain double_a scenario_input"
  by (simp add: plain_def scenario_input_def double_a_def)

text \<open>
  The scenario under the collector, for the results in any order \<open>rs\<close>.
\<close>

lemma scenario_collect:
  assumes "mset rs = mset (pool_results double_a clock scenario_input)"
  shows "fst (collect json_dumps 0 rs (par_start dest ef)) = Some TooManyErrors \<and>
         (1 \<le> m \<longrightarrow>
            fst (collect json_dumps m rs (par_start dest ef)) = None \<and>
            mset (lines_of (out_file (snd (collect json_dumps m rs (par_start dest ef))))) =
              mset (lines_of (out_file (snd (line_map double_a json_dumps 1 dest ef
                scenario_input)))) \<and>
            mset (lines_of (err_file (snd (collect json_dumps m rs (par_start dest ef))))) =
              mset (lines_of (err_file (snd (line_map double_a json_dumps 1 dest ef
                scenario_input)))))"
proof -
  from pool_plain [OF scenario_plain, of clock] obtain pool where p:
    "pool_results double_a clock scenario_input = map Inr pool" "serialisable pool"
    "res_errors pool = map Json (failed double_a scenario_input)"
    "res_outputs pool = outputs double_a scenario_input"
    by blast
  from assms have "set rs = set (pool_results double_a clock scenario_input)"
    by (rule mset_eq_setD)
  with pool_no_escape [OF plain_no_escape [OF scenario_plain], of clock]
  have "\<forall>p\<in>set rs. \<exists>r. p = Inr r" by simp
  then obtain rs' where rs: "rs = map Inr rs'" using all_results by blast
  have "mset (map projr rs) = mset (map projr (pool_results double_a clock scenario_input))"
    using assms by simp
  then have ms: "mset rs' = mset pool"
    by (simp add: rs p(1) comp_def)
  have ser: "serialisable rs'"
    using serialisable_mset [OF ms] p(2) by simp
  have errs: "mset (res_errors rs') = {#Json bad_record#}"
    using res_errors_mset [OF ms] by (simp add: p(3) scenario_failed_bad)
  then have errs_list: "res_errors rs' = [Json bad_record]"
    by (metis mset_single_iff_right)
  have outs: "mset (res_outputs rs') = mset [[(''a'', JInt 2)], [(''a'', JInt 4)]]"
    using res_outputs_mset [OF ms] by (simp add: p(4) scenario_outputs)
  then have "set (res_outputs rs') = set [[(''a'', JInt 2)], [(''a'', JInt 4)]]"
    by (rule mset_eq_setD)
  with dumps_no_newline
  have nonl: "\<forall>y\<in>set (res_outputs rs'). CHR 0x0A \<notin> set (json_dumps y)" by simp
  have b: "fst (collect json_dumps 0 rs (par_start dest ef)) = Some TooManyErrors"
    using collect_fst [OF ser, of json_dumps 0 "par_start dest ef"] rs
    by (simp add: errs_list par_start_def)
  have d: "fst (collect json_dumps m (map Inr rs') (par_start dest ef)) = None" if "1 \<le> m"
    using that collect_fst [OF ser, of json_dumps m "par_start dest ef"]
    by (simp add: errs_list par_start_def)
  have e: "mset (lines_of (out_file (snd (collect json_dumps m (map Inr rs')
        (par_start dest ef))))) =
      mset (lines_of (out_file (snd (line_map double_a json_dumps 1 dest ef scenario_input))))"
    if "1 \<le> m"
  proof -
    from collect_snd [OF ser d [OF that]]
    have "out_file (snd (collect json_dumps m (map Inr rs') (par_start dest ef))) =
        jsonl json_dumps (res_outputs rs')"
      by (simp add: par_start_def)
    then have "lines_of (out_file (snd (collect json_dumps m (map Inr rs')
        (par_start dest ef)))) = map json_dumps (res_outputs rs')"
      using nonl by (simp add: lines_of_jsonl)
    moreover have "lines_of (out_file (snd (line_map double_a json_dumps 1 dest ef
        scenario_input))) = map json_dumps [[(''a'', JInt 2)], [(''a'', JInt 4)]]"
      using dumps_no_newline by (simp only: scenario_line_map lines_of_jsonl)
    ultimately show ?thesis using outs
      by (metis mset_map)
  qed
  have f: "lines_of (err_file (snd (collect json_dumps m (map Inr rs') (par_start dest ef)))) =
      lines_of (err_file (snd (line_map double_a json_dumps 1 dest ef scenario_input)))"
    if "1 \<le> m"
  proof -
    from collect_snd [OF ser d [OF that]]
    have "err_file (snd (collect json_dumps m (map Inr rs') (par_start dest ef))) =
        (get_error_file ef @ json_dumps bad_record) @ nl"
      by (simp add: par_start_def errs_list error_lines_of_def payload_text_def
          dumps_payload_def)
    moreover have "lines_of ((get_error_file ef @ json_dumps bad_record) @ nl) =
        lines_of (get_error_file ef @ json_dumps bad_record)"
      by (rule lines_of_trailing) (simp_all add: dumps_bad)
    ultimately show ?thesis by (simp add: scenario_line_map)
  qed
  from b d e f rs show ?thesis by simp
qed

lemma scenario_never_escapes: "\<forall>x\<in>set scenario_input. \<not> is_Escaped (double_a x)"
  using scenario_reached by (simp add: reached_all)

lemma never_escapes_fst:
  assumes "\<forall>x\<in>set src. \<not> is_Escaped (f x)"
  shows "fst (line_map f d m dest ef src) =
     (if 0 < m \<and> m < int (length (failed f src)) then Inl TooManyErrors
      else Inr (int (length (succeeded f src)), int (length (failed f src))))"
proof -
  from assms have re: "reached f src = src" by (simp add: reached_all)
  then have "first_escape f src = None" by (simp add: first_escape_None)
  with re show ?thesis by (simp add: line_map_fst)
qed

section \<open>The sequential mapper: results\<close>



text \<open>
  C7. When the transform returns a record for every record of the source, \<open>line_map\<close>
  returns \<open>(N, 0)\<close> for the \<open>N\<close> records, the destination holds the \<open>N\<close> outputs,
  each serialised and followed by a line terminator, and the error file holds what it
  held when it was opened. When no serialised output contains a line feed, the
  destination reads back as \<open>N\<close> lines. A record here is a JSON value: a transform that
  returns, without raising, a value that \<^verbatim>\<open>json.dumps\<close> does not serialise has every
  record sent to the error file, and the run returns \<open>(0, N)\<close>.
\<close>

theorem line_map_all_succeed:
  assumes "\<forall>x\<in>set src. \<exists>y. f x = Returned (Some y)"
  shows "fst (line_map f d m dest ef src) = Inr (int (length src), 0) \<and>
         out_file (snd (line_map f d m dest ef src)) = jsonl d (outputs f src) \<and>
         length (outputs f src) = length src \<and>
         err_file (snd (line_map f d m dest ef src)) = get_error_file ef \<and>
         ((\<forall>y\<in>set (outputs f src). CHR 0x0A \<notin> set (d y)) \<longrightarrow>
            length (lines_of (out_file (snd (line_map f d m dest ef src)))) = length src)"
proof -
  from assms have nf: "\<forall>x\<in>set src. is_success (f x)" by fastforce
  have len: "length (outputs f src) = length src" using assms by (rule outputs_all)
  show ?thesis
    using line_map_no_failure [OF nf, of d m dest ef] len
    by (simp add: lines_of_jsonl)
qed

theorem line_map_all_succeed_witness:
  \<open>fst (line_map double_a json_dumps 1 ''old'' None [[(''a'', JInt 1)], [(''a'', JInt 2)]])
     = Inr (2, 0) \<and>
   out_file (snd (line_map double_a json_dumps 1 ''old'' None [[(''a'', JInt 1)], [(''a'', JInt 2)]]))
     = ''{"a": 2}'' @ nl @ ''{"a": 4}'' @ nl \<and>
   length (lines_of (out_file (snd (line_map double_a json_dumps 1 ''old'' None
     [[(''a'', JInt 1)], [(''a'', JInt 2)]])))) = 2\<close>
  using line_map_all_succeed [of "[[(''a'', JInt 1)], [(''a'', JInt 2)]]" double_a
      json_dumps 1 "''old''" None]
  by (simp add: double_a_int dumps_int jsonl_def nl_def)

theorem line_map_unserialisable_counterexample:
  \<open>fst (line_map returns_a_set json_dumps 0 [] None scenario_input) = Inr (0, 3) \<and>
   out_file (snd (line_map returns_a_set json_dumps 0 [] None scenario_input)) = [] \<and>
   err_file (snd (line_map returns_a_set json_dumps 0 [] None scenario_input)) =
     ''{"a": 1}{"a": 2}{"a": "bad"}''\<close>
  by (simp add: line_map_def line_map_body_def returns_a_set_def scenario_input_def
      json_dumps_def file_write_def get_error_file_def)

text \<open>
  C8. When the transform returns \<^verbatim>\<open>None\<close> for every record, \<open>line_map\<close> returns
  \<open>(N, 0)\<close>, the destination is empty and nothing is written to the error file.
\<close>

theorem line_map_all_none:
  assumes "\<forall>x\<in>set src. f x = Returned None"
  shows "fst (line_map f d m dest ef src) = Inr (int (length src), 0) \<and>
         out_file (snd (line_map f d m dest ef src)) = [] \<and>
         err_file (snd (line_map f d m dest ef src)) = get_error_file ef"
proof -
  from assms have nf: "\<forall>x\<in>set src. is_success (f x)" by simp
  show ?thesis
    using line_map_no_failure [OF nf, of d m dest ef] outputs_none [OF assms]
    by (simp add: jsonl_def)
qed

theorem line_map_all_none_witness:
  \<open>fst (line_map (\<lambda>r. Returned None) json_dumps 1 ''old'' (Some ''prior'') scenario_input)
     = Inr (3, 0) \<and>
   out_file (snd (line_map (\<lambda>r. Returned None) json_dumps 1 ''old'' (Some ''prior'')
     scenario_input)) = [] \<and>
   err_file (snd (line_map (\<lambda>r. Returned None) json_dumps 1 ''old'' (Some ''prior'')
     scenario_input)) = ''prior''\<close>
  using line_map_all_none [of scenario_input "\<lambda>r. Returned None" json_dumps 1 "''old''"
      "Some ''prior''"]
  by (simp add: scenario_length get_error_file_def)

text \<open>
  C9. When \<open>line_map\<close> stops with the too-many-errors condition, \<open>max_errors\<close> is
  positive, the error counter is \<open>max_errors + 1\<close>, the last record processed is one
  counted as an error, and the error file has received exactly the \<open>max_errors + 1\<close>
  failed records among those processed.
\<close>

theorem line_map_abort_error_count:
  assumes "fst (line_map f d m dest ef src) = Inl TooManyErrors"
  shows "(let s = snd (line_map f d m dest ef src); n = nat (current_line s) in
          0 < m \<and> error_lines s = m + 1 \<and> 0 < n \<and> n \<le> length src \<and>
          is_error (f (src ! (n - 1))) \<and>
          int (length (failed f (take n src))) = m + 1 \<and>
          err_file s = get_error_file ef @ concat (map d (failed f (take n src))))"
proof -
  from line_map_snd [of f src d m dest ef] assms obtain n where n:
    "n \<le> length (reached f src)"
    "err_file (snd (line_map f d m dest ef src)) =
       get_error_file ef @ concat (map d (failed f (take n src)))"
    "error_lines (snd (line_map f d m dest ef src)) = int (length (failed f (take n src)))"
    "current_line (snd (line_map f d m dest ef src)) = int n"
    "0 < n" "0 < m" "is_error (f (src ! (n - 1)))"
    "error_lines (snd (line_map f d m dest ef src)) = m + 1"
    by auto
  from n(1) reached_length [of f src] have "n \<le> length src" by simp
  with n show ?thesis by (simp add: Let_def)
qed

theorem line_map_abort_error_count_witness:
  \<open>fst (line_map double_a json_dumps 1 [] None [bad_record, bad_record, [(''a'', JInt 1)]])
     = Inl TooManyErrors \<and>
   error_lines (snd (line_map double_a json_dumps 1 [] None
     [bad_record, bad_record, [(''a'', JInt 1)]])) = 2 \<and>
   current_line (snd (line_map double_a json_dumps 1 [] None
     [bad_record, bad_record, [(''a'', JInt 1)]])) = 2 \<and>
   err_file (snd (line_map double_a json_dumps 1 [] None
     [bad_record, bad_record, [(''a'', JInt 1)]])) = ''{"a": "bad"}{"a": "bad"}''\<close>
proof -
  have h: "fst (line_map double_a json_dumps 1 [] None [bad_record, bad_record, [(''a'', JInt 1)]])
     = Inl TooManyErrors"
    by (simp add: line_map_def line_map_body_def double_a_bad)
  have n: "current_line (snd (line_map double_a json_dumps 1 [] None
     [bad_record, bad_record, [(''a'', JInt 1)]])) = 2"
    by (simp add: line_map_def line_map_body_def double_a_bad)
  from line_map_abort_error_count [OF h] h n show ?thesis
    by (simp add: Let_def failed_def double_a_bad dumps_bad get_error_file_def)
qed

text \<open>
  C10. The destination is opened with mode \<^verbatim>\<open>"w"\<close>: what it held before the run has
  no influence, and after the run it holds the lines of the outputs of the records
  processed. A caller-supplied error file is opened with mode \<^verbatim>\<open>"a"\<close>: after the run it
  holds what it held before, followed by the failed records of the run.
\<close>

theorem line_map_open_modes:
  "out_file (snd (line_map f d m dest ef src)) = out_file (snd (line_map f d m [] ef src)) \<and>
   (let s = snd (line_map f d m dest (Some prior) src); n = nat (current_line s) in
      n \<le> length src \<and>
      out_file s = jsonl d (outputs f (take n src)) \<and>
      err_file s = prior @ concat (map d (failed f (take n src))))"
proof -
  have "line_map f d m dest ef src = line_map f d m [] ef src"
    by (simp add: line_map_def)
  moreover
  from line_map_snd [of f src d m dest "Some prior"] obtain n where
    "n \<le> length (reached f src)"
    "out_file (snd (line_map f d m dest (Some prior) src)) = jsonl d (outputs f (take n src))"
    "err_file (snd (line_map f d m dest (Some prior) src)) =
       get_error_file (Some prior) @ concat (map d (failed f (take n src)))"
    "current_line (snd (line_map f d m dest (Some prior) src)) = int n"
    by blast
  moreover note reached_length [of f src]
  ultimately show ?thesis by (simp add: Let_def get_error_file_def)
qed

section \<open>The parallel mapper: results\<close>




text \<open>
  C1. A call of \<open>line_map_parallel\<close> that completes returns \<^verbatim>\<open>None\<close>, not a pair of
  counts: the function counts errors only, for the breaker, and has no
  \<^verbatim>\<open>return\<close> statement. On the scenario with \<open>n_errors_max = 5\<close> the call completes
  and returns \<^verbatim>\<open>None\<close>, where \<open>line_map\<close> returns \<open>(2, 1)\<close>.
\<close>

theorem line_map_parallel_returns_none:
  "(\<exists>v. fst (line_map_parallel map_func dumps n_errors_max clock dest_file error_file source_file)
          = Inr v) \<longrightarrow>
   fst (line_map_parallel map_func dumps n_errors_max clock dest_file error_file source_file)
     = Inr None"
  by (auto simp: line_map_parallel_def split: prod.splits option.splits sum.splits)

theorem line_map_parallel_returns_none_witness:
  "fst (line_map_parallel double_a json_dumps 1 unit_clock [] None scenario_input) = Inr None"
proof -
  have "\<exists>v. fst (line_map_parallel double_a json_dumps 1 unit_clock [] None scenario_input) = Inr v"
    by (simp add: line_map_parallel_fst [OF scenario_plain] scenario_failed scenario_nonempty)
  with line_map_parallel_returns_none [of double_a json_dumps 1 unit_clock "[]" None scenario_input]
  show ?thesis by blast
qed

theorem line_map_parallel_counts_counterexample:
  "fst (line_map_parallel double_a json_dumps 5 unit_clock [] None scenario_input) = Inr None \<and>
   fst (line_map double_a json_dumps 5 [] None scenario_input) = Inr (2, 1)"
  by (simp add: line_map_parallel_fst [OF scenario_plain] never_escapes_fst
      scenario_never_escapes scenario_failed scenario_succeeded scenario_nonempty)

text \<open>
  C3. On the scenario, \<open>n_errors_max = 0\<close> does not mean unbounded for the parallel
  mapper: the check is \<^verbatim>\<open>n_errors > n_errors_max\<close> with no test of the sign, so the one
  failure stops the run, in whatever order \<open>rs\<close> the results are collected. With
  \<open>n_errors_max \<ge> 1\<close> the run completes and returns \<^verbatim>\<open>None\<close>, and in whatever order
  the results are collected the destination and the error file hold the same lines, as
  multisets, as after the sequential run with \<open>max_errors = 1\<close>. The number of workers
  is an argument of the pool only; it has no part in what the collector does.
\<close>

theorem line_map_parallel_scenario:
  assumes "mset rs = mset (pool_results double_a clock scenario_input)"
  shows "fst (line_map_parallel double_a json_dumps 0 clock dest ef scenario_input)
           = Inl TooManyErrors \<and>
         fst (collect json_dumps 0 rs (par_start dest ef)) = Some TooManyErrors \<and>
         (1 \<le> m \<longrightarrow>
            fst (line_map_parallel double_a json_dumps m clock dest ef scenario_input)
              = Inr None \<and>
            mset (lines_of (out_file (snd (line_map_parallel double_a json_dumps m clock dest ef
                scenario_input)))) =
              mset (lines_of (out_file (snd (line_map double_a json_dumps 1 dest ef
                scenario_input)))) \<and>
            mset (lines_of (err_file (snd (line_map_parallel double_a json_dumps m clock dest ef
                scenario_input)))) =
              mset (lines_of (err_file (snd (line_map double_a json_dumps 1 dest ef
                scenario_input)))) \<and>
            fst (collect json_dumps m rs (par_start dest ef)) = None \<and>
            mset (lines_of (out_file (snd (collect json_dumps m rs (par_start dest ef))))) =
              mset (lines_of (out_file (snd (line_map double_a json_dumps 1 dest ef
                scenario_input)))) \<and>
            mset (lines_of (err_file (snd (collect json_dumps m rs (par_start dest ef))))) =
              mset (lines_of (err_file (snd (line_map double_a json_dumps 1 dest ef
                scenario_input)))))"
proof -
  have a: "fst (line_map_parallel double_a json_dumps 0 clock dest ef scenario_input)
           = Inl TooManyErrors"
    by (simp add: line_map_parallel_fst [OF scenario_plain] scenario_failed)
  have c: "fst (line_map_parallel double_a json_dumps m clock dest ef scenario_input) = Inr None"
    if "1 \<le> m"
    using that
    by (simp add: line_map_parallel_fst [OF scenario_plain] scenario_failed scenario_nonempty)
  have "mset (pool_results double_a clock scenario_input) =
      mset (pool_results double_a clock scenario_input)" ..
  from scenario_collect [OF this, of dest ef m]
  have own: "1 \<le> m \<longrightarrow>
      mset (lines_of (out_file (snd (line_map_parallel double_a json_dumps m clock dest ef
          scenario_input)))) =
        mset (lines_of (out_file (snd (line_map double_a json_dumps 1 dest ef
          scenario_input)))) \<and>
      mset (lines_of (err_file (snd (line_map_parallel double_a json_dumps m clock dest ef
          scenario_input)))) =
        mset (lines_of (err_file (snd (line_map double_a json_dumps 1 dest ef
          scenario_input))))"
    by (simp add: line_map_parallel_snd)
  from a c own scenario_collect [OF assms, of dest ef m] show ?thesis by simp
qed

theorem line_map_parallel_scenario_witness:
  "mset (rev (pool_results double_a unit_clock scenario_input)) =
     mset (pool_results double_a unit_clock scenario_input) \<and>
   fst (collect json_dumps 0 (rev (pool_results double_a unit_clock scenario_input))
          (par_start [] None)) = Some TooManyErrors \<and>
   (1::int) \<le> 1 \<and>
   fst (collect json_dumps 1 (rev (pool_results double_a unit_clock scenario_input))
          (par_start [] None)) = None"
  using line_map_parallel_scenario [of "rev (pool_results double_a unit_clock scenario_input)"
      unit_clock "[]" None 1]
  by simp

theorem line_map_parallel_scenario_counterexample:
  "fst (line_map_parallel double_a json_dumps 0 unit_clock [] None scenario_input)
     = Inl TooManyErrors"
  by (simp add: line_map_parallel_fst [OF scenario_plain] scenario_failed)

text \<open>
  C5. On an empty source \<open>line_map\<close> returns \<open>(0, 0)\<close>, and in both mappers the
  destination is empty and nothing is written to the error file. \<open>line_map_parallel\<close>
  does not complete on it: after the files are closed, \<^verbatim>\<open>min(all_times)\<close> raises
  \<^verbatim>\<open>ValueError\<close> on the empty list of times, for every transform and every bound.
\<close>

theorem empty_input:
  "fst (line_map map_func dumps max_errors dest_file error_file []) = Inr (0, 0) \<and>
   out_file (snd (line_map map_func dumps max_errors dest_file error_file [])) = [] \<and>
   err_file (snd (line_map map_func dumps max_errors dest_file error_file [])) =
     get_error_file error_file \<and>
   fst (line_map_parallel map_func dumps n_errors_max clock dest_file error_file [])
     = Inl MinEmptySequence \<and>
   out_file (snd (line_map_parallel map_func dumps n_errors_max clock dest_file error_file []))
     = [] \<and>
   err_file (snd (line_map_parallel map_func dumps n_errors_max clock dest_file error_file []))
     = get_error_file error_file"
  by (simp add: line_map_def line_map_parallel_def pool_results_def time_report_def)

text \<open>
  C4. The sequential mapper writes a failed record to the error file without a line
  terminator: two failed records end up on one line. The parallel mapper writes the
  terminator after each.
\<close>

theorem line_map_error_sink_no_terminator:
  \<open>err_file (snd (line_map double_a json_dumps 0 [] (Some []) [bad_record, bad_record])) =
     ''{"a": "bad"}{"a": "bad"}'' \<and>
   err_file (snd (line_map_parallel double_a json_dumps 5 unit_clock [] (Some [])
                    [bad_record, bad_record])) =
     ''{"a": "bad"}'' @ nl @ ''{"a": "bad"}'' @ nl\<close>
  by (simp add: line_map_def line_map_body_def Let_def double_a_bad dumps_bad file_write_def
      get_error_file_def line_map_parallel_snd pool_results_def par_start_def map_wrapper_def
      dumps_payload_def)

end
